theory Spec2Isabelle
  imports Main "HOL-Library.Word"
begin

section \<open>The search index script\<close>

text \<open>
  The source file \<^verbatim>\<open>search-index.js\<close> is a script of three statements:
  \<^verbatim>\<open>var searchIndex = {};\<close>, then the assignment of one object literal to
  \<^verbatim>\<open>searchIndex["read_exact"]\<close>, then the call \<^verbatim>\<open>initSearch(searchIndex);\<close>.
  The values it builds are JSON-like: null, integer literals, strings, arrays and
  objects. An object is kept as the list of its properties in insertion order.
\<close>

datatype jsval =
    JNull
  | JNum int
  | JStr string
  | JArr "jsval list"
  | JObj "(string \<times> jsval) list"

datatype js_error = ReferenceError | TypeError | Thrown jsval

text \<open>
  Property assignment \<^verbatim>\<open>o[k] = v\<close> on an object: an existing key keeps its place
  and takes the new value, a new key is appended.
\<close>

fun put_prop :: "string \<Rightarrow> jsval \<Rightarrow> (string \<times> jsval) list \<Rightarrow> (string \<times> jsval) list" where
  "put_prop k v [] = [(k, v)]"
| "put_prop k v ((k', v') # ps) =
     (if k = k' then (k, v) # ps else (k', v') # put_prop k v ps)"

text \<open>
  \<^verbatim>\<open>x[k] = v\<close> for any value \<open>x\<close> the script can hold: on null it throws a
  TypeError, on a number or a string it does nothing (the script is not in strict
  mode). An array would take \<open>k\<close> as a named property, which this value type does
  not record; the script never reaches that case.
\<close>

fun assign_prop :: "jsval \<Rightarrow> string \<Rightarrow> jsval \<Rightarrow> js_error + jsval" where
  "assign_prop (JObj ps) k v = Inr (JObj (put_prop k v ps))"
| "assign_prop JNull k v = Inl TypeError"
| "assign_prop x k v = Inr x"

text \<open>
  The state of the page: its global variables, and the state of the external search
  widget, of which the script knows nothing.
\<close>

record 'w page =
  vars :: "string \<rightharpoonup> jsval"
  widget :: 'w

text \<open>
  \<^verbatim>\<open>initSearch\<close> is supplied by the viewer. It receives its arguments and the whole
  page (it may touch any global), and returns a value or throws.
\<close>

type_synonym 'w extern = "jsval list \<Rightarrow> 'w page \<Rightarrow> js_error + (jsval \<times> 'w page)"

text \<open>What the script itself does, step by step.\<close>

datatype action =
    Declare string jsval
  | SetProp string string jsval
  | Invoke string "jsval list"

text \<open>The object literal on the right-hand side of the second statement.\<close>

definition read_exact_entry :: jsval where
  "read_exact_entry =
     JObj [
       (''doc'', JStr ''Provides a variant of `read_exact` that succeeds on EOF if no data has been\<newline>read.''),
       (''items'', JArr [
          JArr [JNum 8, JStr ''ReadExactExt'', JStr ''read_exact'',
                JStr ''An extension trait that applies to all `std::io::Read` types.'',
                JNull, JNull],
          JArr [JNum 10, JStr ''read_exact_or_eof'', JStr '''',
                JStr ''Reads exactly the number of bytes to fill `buf`, or zero.'',
                JNum 0, JNull]]),
       (''paths'', JArr [JArr [JNum 8, JStr ''ReadExactExt'']])]"

text \<open>\<^verbatim>\<open>var searchIndex = {};\<close>\<close>

definition stmt1 :: "'w page \<Rightarrow> action list \<times> (js_error + 'w page)" where
  "stmt1 p = ([Declare ''searchIndex'' (JObj [])],
              Inr (p\<lparr>vars := (vars p)(''searchIndex'' \<mapsto> JObj [])\<rparr>))"

text \<open>\<^verbatim>\<open>searchIndex["read_exact"] = {...};\<close>\<close>

definition stmt2 :: "'w page \<Rightarrow> action list \<times> (js_error + 'w page)" where
  "stmt2 p =
     (case vars p ''searchIndex'' of
        None \<Rightarrow> ([], Inl ReferenceError)
      | Some x \<Rightarrow>
          (case assign_prop x ''read_exact'' read_exact_entry of
             Inl e \<Rightarrow> ([], Inl e)
           | Inr x' \<Rightarrow> ([SetProp ''searchIndex'' ''read_exact'' read_exact_entry],
                        Inr (p\<lparr>vars := (vars p)(''searchIndex'' \<mapsto> x')\<rparr>))))"

text \<open>
  \<^verbatim>\<open>initSearch(searchIndex);\<close> is an expression statement: the value the call
  returns is dropped, and there is no \<^verbatim>\<open>try\<close> around it, so what it throws ends the
  script.
\<close>

definition stmt3 :: "'w extern \<Rightarrow> 'w page \<Rightarrow> action list \<times> (js_error + 'w page)" where
  "stmt3 initSearch p =
     (case vars p ''searchIndex'' of
        None \<Rightarrow> ([], Inl ReferenceError)
      | Some x \<Rightarrow>
          ([Invoke ''initSearch'' [x]],
           (case initSearch [x] p of
              Inl e \<Rightarrow> Inl e
            | Inr (r, p') \<Rightarrow> Inr p')))"

text \<open>Statements run in order; the first error ends the script.\<close>

definition seq ::
  "('w page \<Rightarrow> action list \<times> (js_error + 'w page)) \<Rightarrow>
   ('w page \<Rightarrow> action list \<times> (js_error + 'w page)) \<Rightarrow>
   'w page \<Rightarrow> action list \<times> (js_error + 'w page)" where
  "seq f g p =
     (case f p of
        (as, Inl e) \<Rightarrow> (as, Inl e)
      | (as, Inr p') \<Rightarrow> (case g p' of (bs, r) \<Rightarrow> (as @ bs, r)))"

definition load_table :: "'w page \<Rightarrow> action list \<times> (js_error + 'w page)" where
  "load_table = seq stmt1 stmt2"

definition script :: "'w extern \<Rightarrow> 'w page \<Rightarrow> action list \<times> (js_error + 'w page)" where
  "script initSearch = seq load_table (stmt3 initSearch)"

text \<open>
  The value of \<^verbatim>\<open>searchIndex\<close> once the first two statements have run in a fresh
  page: the table that the third statement hands over.
\<close>

definition fresh_page :: "unit page" where
  "fresh_page = \<lparr>vars = Map.empty, widget = ()\<rparr>"

definition search_index :: "js_error + jsval" where
  "search_index =
     (case snd (load_table fresh_page) of
        Inl e \<Rightarrow> Inl e
      | Inr p \<Rightarrow> (case vars p ''searchIndex'' of
                   None \<Rightarrow> Inl ReferenceError
                 | Some x \<Rightarrow> Inr x))"

subsection \<open>Reading the table\<close>

fun is_num :: "jsval \<Rightarrow> bool" where
  "is_num (JNum n) = True"
| "is_num v = False"

fun is_str :: "jsval \<Rightarrow> bool" where
  "is_str (JStr s) = True"
| "is_str v = False"

fun is_null :: "jsval \<Rightarrow> bool" where
  "is_null JNull = True"
| "is_null v = False"

fun is_arr :: "jsval \<Rightarrow> bool" where
  "is_arr (JArr xs) = True"
| "is_arr v = False"

fun is_obj :: "jsval \<Rightarrow> bool" where
  "is_obj (JObj ps) = True"
| "is_obj v = False"

fun keys_of :: "jsval \<Rightarrow> string list" where
  "keys_of (JObj ps) = map fst ps"
| "keys_of v = []"

fun values_of :: "jsval \<Rightarrow> jsval list" where
  "values_of (JObj ps) = map snd ps"
| "values_of v = []"

fun get_prop :: "string \<Rightarrow> jsval \<Rightarrow> jsval option" where
  "get_prop k (JObj ps) = map_of ps k"
| "get_prop k v = None"

fun elems :: "jsval \<Rightarrow> jsval list" where
  "elems (JArr xs) = xs"
| "elems v = []"

text \<open>The table itself, the documents in it, and the two lists of a document.\<close>

definition table :: jsval where
  "table = (case search_index of Inl e \<Rightarrow> JNull | Inr x \<Rightarrow> x)"

definition documents :: "jsval list" where
  "documents = values_of table"

definition items_of :: "jsval \<Rightarrow> jsval list" where
  "items_of d = (case get_prop ''items'' d of None \<Rightarrow> [] | Some v \<Rightarrow> elems v)"

definition paths_of :: "jsval \<Rightarrow> jsval list" where
  "paths_of d = (case get_prop ''paths'' d of None \<Rightarrow> [] | Some v \<Rightarrow> elems v)"

text \<open>Field \<open>i\<close> (counted from 0) of an item or path descriptor.\<close>

definition field_at :: "nat \<Rightarrow> jsval \<Rightarrow> jsval option" where
  "field_at i v = (if i < length (elems v) then Some (elems v ! i) else None)"

text \<open>All item descriptors of all documents, in written order.\<close>

definition all_items :: "jsval list" where
  "all_items = concat (map items_of documents)"

text \<open>
  The six positional fields of an item descriptor: a numeric kind code, a name, a
  namespace, a doc string, a cross-reference id accepted by \<open>xref\<close>, and an optional
  parent-type reference (null when absent).
\<close>

fun item_fields :: "(jsval \<Rightarrow> bool) \<Rightarrow> jsval list \<Rightarrow> bool" where
  "item_fields xref [k, n, ns, d, x, p] =
     (is_num k \<and> is_str n \<and> is_str ns \<and> is_str d \<and> xref x \<and> (is_null p \<or> is_num p))"
| "item_fields xref fs = False"

definition is_item :: "(jsval \<Rightarrow> bool) \<Rightarrow> jsval \<Rightarrow> bool" where
  "is_item xref v = (is_arr v \<and> item_fields xref (elems v))"

definition num_or_null :: "jsval \<Rightarrow> bool" where
  "num_or_null v = (is_num v \<or> is_null v)"

definition six_fields :: "jsval \<Rightarrow> bool" where
  "six_fields v = (is_arr v \<and> length (elems v) = 6)"

text \<open>A document object: exactly the fields \<open>doc\<close>, \<open>items\<close> and \<open>paths\<close>.\<close>

definition prop_is :: "(jsval \<Rightarrow> bool) \<Rightarrow> string \<Rightarrow> jsval \<Rightarrow> bool" where
  "prop_is P k d = (case get_prop k d of None \<Rightarrow> False | Some v \<Rightarrow> P v)"

definition is_document :: "jsval \<Rightarrow> bool" where
  "is_document d =
     (is_obj d \<and> keys_of d = [''doc'', ''items'', ''paths''] \<and>
      prop_is is_str ''doc'' d \<and> prop_is is_arr ''items'' d \<and> prop_is is_arr ''paths'' d \<and>
      list_all six_fields (items_of d))"

text \<open>
  A reference into a paths list of length \<open>n\<close>: null (no reference) or an index
  below \<open>n\<close>. The references of an item are its last two fields.
\<close>

fun ref_ok :: "nat \<Rightarrow> jsval \<Rightarrow> bool" where
  "ref_ok n JNull = True"
| "ref_ok n (JNum i) = (0 \<le> i \<and> i < int n)"
| "ref_ok n v = False"

definition refs_of :: "jsval \<Rightarrow> jsval list" where
  "refs_of it = drop 4 (elems it)"

definition refs_ok :: "jsval \<Rightarrow> bool" where
  "refs_ok d = list_all (list_all (ref_ok (length (paths_of d)))) (map refs_of (items_of d))"

text \<open>A path descriptor: a numeric kind code and a string name.\<close>

fun is_path :: "jsval \<Rightarrow> bool" where
  "is_path (JArr [JNum k, JStr n]) = True"
| "is_path v = False"

definition kind_and_name :: "jsval \<Rightarrow> jsval list" where
  "kind_and_name v = take 2 (elems v)"

text \<open>
  The parent reference of an item is its fifth field, the one that holds 0 in the
  method's descriptor.
\<close>

definition has_parent :: "jsval \<Rightarrow> bool" where
  "has_parent it = (case field_at 4 it of None \<Rightarrow> False | Some v \<Rightarrow> \<not> is_null v)"

definition parent_path :: "jsval \<Rightarrow> jsval \<Rightarrow> jsval option" where
  "parent_path d it =
     (case field_at 4 it of
        Some (JNum i) \<Rightarrow> if 0 \<le> i then field_at (nat i) (JArr (paths_of d)) else None
      | _ \<Rightarrow> None)"

definition is_trait :: "jsval \<Rightarrow> bool" where
  "is_trait it = (field_at 0 it = Some (JNum 8))"

section \<open>The bounded read that the index describes\<close>

text \<open>
  The index documents one method, \<^verbatim>\<open>read_exact_or_eof\<close> of the trait
  \<^verbatim>\<open>ReadExactExt\<close>. Its body is not part of the source tree at hand; the index
  only carries its name and one line of documentation.
\<close>

type_synonym byte = "8 word"

text \<open>
  Modelled from the spec: the readable byte source, which the spec leaves abstract.
  A source is the list of the answers its underlying read will give, one per call:
  \<open>Data bs\<close> offers the bytes \<open>bs\<close> (no bytes at all is how a read reports end of
  stream), \<open>Fail e\<close> raises the lower-level error \<open>e\<close>. A source with no answers
  left is at end of stream.
\<close>

datatype 'e chunk = Data "byte list" | Fail 'e

type_synonym 'e source = "'e chunk list"

text \<open>
  Modelled from the spec: the underlying read primitive, asked for at most \<open>n\<close>
  bytes. Bytes of a chunk that do not fit stay in the source for the next read.
\<close>

fun read_src :: "nat \<Rightarrow> 'e source \<Rightarrow> ('e + byte list) \<times> 'e source" where
  "read_src n [] = (Inr [], [])"
| "read_src n (Fail e # r) = (Inl e, r)"
| "read_src n (Data bs # r) =
     (if length bs \<le> n then (Inr bs, r)
      else (Inr (take n bs), Data (drop n bs) # r))"

text \<open>
  Modelled from the spec: the two failure kinds of the utility, a propagated
  lower-level I/O failure and the distinguished "unexpected end of input".
\<close>

datatype 'e read_error = Io 'e | UnexpectedEof

text \<open>
  Modelled from the spec: storing the bytes \<open>bs\<close> of one read into the destination
  buffer from offset \<open>off\<close> on. The buffer keeps its length.
\<close>

definition write_at :: "nat \<Rightarrow> byte list \<Rightarrow> byte list \<Rightarrow> byte list" where
  "write_at off bs buf =
     take off buf @ take (length buf - off) bs @ drop (off + length bs) buf"

text \<open>
  Modelled from the spec: the body of \<^verbatim>\<open>read_exact_or_eof\<close>, which is missing from
  the source tree. The spec gives it as a single guarded loop over a running offset
  counter: read into the unfilled rest of the buffer until it is full; a lower-level
  error propagates at once; end of stream at offset 0 is success with zero bytes
  filled; end of stream at a later offset is the "unexpected end of input" failure;
  a full buffer is success with all \<open>N\<close> bytes filled. The result is the outcome,
  the buffer and the source as the call leaves them.
\<close>

function fill_from ::
  "nat \<Rightarrow> byte list \<Rightarrow> 'e source \<Rightarrow> ('e read_error + nat) \<times> byte list \<times> 'e source" where
  "fill_from off buf src =
     (if length buf \<le> off then (Inr off, buf, src)
      else
        (case read_src (length buf - off) src of
           (Inl e, src') \<Rightarrow> (Inl (Io e), buf, src')
         | (Inr bs, src') \<Rightarrow>
             if bs = [] then
               (if off = 0 then (Inr 0, buf, src') else (Inl UnexpectedEof, buf, src'))
             else fill_from (off + length bs) (write_at off bs buf) src'))"
  by pat_completeness auto
termination
proof (relation "measure (\<lambda>(off, buf, src). length buf - off)")
  fix off :: nat and buf bs :: "byte list"
  assume "\<not> length buf \<le> off" and "bs \<noteq> []"
  then obtain n where n: "length bs = Suc n" and lt: "off < length buf"
    by (cases bs) auto
  have "length (write_at off bs buf) = length buf"
    using lt by (simp add: write_at_def n)
  then show "((off + length bs, write_at off bs buf, src'), (off, buf, src))
             \<in> measure (\<lambda>(off, buf, src). length buf - off)" for src src' :: "'e source"
    using lt by (simp add: n)
qed simp

text \<open>
  Modelled from the spec: the call itself, which starts the loop at offset 0 on a
  destination buffer of length \<open>N = length buf\<close>.
\<close>

definition read_exact_or_eof ::
  "byte list \<Rightarrow> 'e source \<Rightarrow> ('e read_error + nat) \<times> byte list \<times> 'e source" where
  "read_exact_or_eof buf src = fill_from 0 buf src"

text \<open>
  Modelled from the spec: what a source holds, seen from outside: the bytes it delivers before its first
  read that stops the stream, and how that read stops it (\<open>None\<close> is end of stream,
  \<open>Some e\<close> the error \<open>e\<close>).
\<close>

fun delivered :: "'e source \<Rightarrow> byte list" where
  "delivered [] = []"
| "delivered (Fail e # r) = []"
| "delivered (Data bs # r) = (if bs = [] then [] else bs @ delivered r)"

fun ending :: "'e source \<Rightarrow> 'e option" where
  "ending [] = None"
| "ending (Fail e # r) = Some e"
| "ending (Data bs # r) = (if bs = [] then None else ending r)"

text \<open>Modelled from the spec: a source whose next read reports end of stream.\<close>

fun at_eof :: "'e source \<Rightarrow> bool" where
  "at_eof [] = True"
| "at_eof (Fail e # r) = False"
| "at_eof (Data bs # r) = (bs = [])"

section \<open>Properties of the search index\<close>

lemma put_prop_keys: "fst ` set (put_prop k v ps) = insert k (fst ` set ps)"
proof (induction ps)
  case Nil
  then show ?case by simp
next
  case (Cons a ps)
  then show ?case by (cases a) (simp add: insert_commute)
qed

lemma put_prop_distinct:
  "distinct (map fst ps) \<Longrightarrow> distinct (map fst (put_prop k v ps))"
proof (induction ps)
  case Nil
  then show ?case by simp
next
  case (Cons a ps)
  obtain k' v' where a: "a = (k', v')" by (cases a)
  show ?case
  proof (cases "k = k'")
    case True
    with Cons.prems a show ?thesis by simp
  next
    case False
    have "k' \<notin> set (map fst (put_prop k v ps))"
      using Cons.prems False a by (simp add: put_prop_keys)
    with Cons a False show ?thesis by simp
  qed
qed

lemma load_table_result:
  "load_table p =
     ([Declare ''searchIndex'' (JObj []), SetProp ''searchIndex'' ''read_exact'' read_exact_entry],
      Inr (p\<lparr>vars := (vars p)(''searchIndex'' \<mapsto> JObj [(''read_exact'', read_exact_entry)])\<rparr>))"
  by (simp add: load_table_def seq_def stmt1_def stmt2_def)

lemma search_index_value: "search_index = Inr (JObj [(''read_exact'', read_exact_entry)])"
  by (simp add: search_index_def load_table_result)

lemma table_value: "table = JObj [(''read_exact'', read_exact_entry)]"
  by (simp add: table_def search_index_value)

lemma documents_value: "documents = [read_exact_entry]"
  by (simp add: documents_def table_value)

lemma items_value:
  "items_of read_exact_entry =
     [JArr [JNum 8, JStr ''ReadExactExt'', JStr ''read_exact'',
            JStr ''An extension trait that applies to all `std::io::Read` types.'',
            JNull, JNull],
      JArr [JNum 10, JStr ''read_exact_or_eof'', JStr '''',
            JStr ''Reads exactly the number of bytes to fill `buf`, or zero.'',
            JNum 0, JNull]]"
  by (simp add: items_of_def read_exact_entry_def)

lemma paths_value: "paths_of read_exact_entry = [JArr [JNum 8, JStr ''ReadExactExt'']]"
  by (simp add: paths_of_def read_exact_entry_def)

lemma all_items_value: "all_items = items_of read_exact_entry"
  by (simp add: all_items_def documents_value)

lemma entry_is_document: "is_document read_exact_entry"
  unfolding is_document_def items_value
  by (simp add: read_exact_entry_def prop_is_def six_fields_def)

text \<open>
  C5: the top-level search index maps crate names to document objects (objects with
  exactly the fields \<open>doc\<close>, \<open>items\<close> and \<open>paths\<close>), no crate name is a key twice,
  and here its only key is \<open>read_exact\<close>, mapped to such a document object.
\<close>

theorem C5_single_crate_key:
  "search_index = Inr table \<and> is_obj table \<and>
   keys_of table = [''read_exact''] \<and> distinct (keys_of table) \<and>
   list_all is_document (values_of table) \<and>
   get_prop ''read_exact'' table = Some read_exact_entry \<and>
   prop_is is_document ''read_exact'' table \<and> is_document read_exact_entry"
  by (simp add: search_index_value table_value prop_is_def entry_is_document)

text \<open>
  C6, as stated: every item descriptor has six fields, the fifth of them a numeric
  cross-reference id. The trait's descriptor has null in that place, so the claim
  fails on the first item.
\<close>

theorem C6_numeric_xref_fails:
  "hd all_items =
     JArr [JNum 8, JStr ''ReadExactExt'', JStr ''read_exact'',
           JStr ''An extension trait that applies to all `std::io::Read` types.'',
           JNull, JNull] \<and>
   field_at 4 (hd all_items) = Some JNull \<and> \<not> is_num JNull \<and>
   \<not> is_item is_num (hd all_items) \<and> \<not> list_all (is_item is_num) all_items"
  by (simp add: all_items_value items_value is_item_def field_at_def)

text \<open>
  C6, amended: every item descriptor is a tuple of exactly six fields, in order a
  numeric kind code, a name, a namespace, a doc string, a cross-reference id that is
  a number or null, and an optional parent-type reference; there are two of them.
\<close>

theorem C6_item_six_fields:
  "list_all (is_item num_or_null) all_items \<and> list_all six_fields all_items \<and>
   length all_items = 2"
  by (simp add: all_items_value items_value is_item_def num_or_null_def six_fields_def)

text \<open>
  C7: every document object of the index has exactly the fields \<open>doc\<close> (a string),
  \<open>items\<close> (a list of item descriptors) and \<open>paths\<close> (a list), and the items keep
  their written order: the trait \<open>ReadExactExt\<close> comes before the method
  \<open>read_exact_or_eof\<close>.
\<close>

theorem C7_document_fields_and_order:
  "documents \<noteq> [] \<and> list_all is_document documents \<and>
   map (field_at 1) all_items = [Some (JStr ''ReadExactExt''), Some (JStr ''read_exact_or_eof'')]"
proof -
  have "is_document read_exact_entry"
    unfolding is_document_def items_value
    by (simp add: read_exact_entry_def prop_is_def six_fields_def)
  moreover have "map (field_at 1) (items_of read_exact_entry) =
                 [Some (JStr ''ReadExactExt''), Some (JStr ''read_exact_or_eof'')]"
    by (simp add: items_value field_at_def)
  ultimately show ?thesis
    by (simp add: documents_value all_items_value)
qed

text \<open>
  C8: every non-null reference that an item descriptor carries is a valid index into
  the paths list of the same document. The method's descriptor carries the
  reference 0, and the paths list has one entry.
\<close>

theorem C8_references_index_paths:
  "list_all refs_ok documents \<and>
   map refs_of all_items = [[JNull, JNull], [JNum 0, JNull]] \<and>
   map (\<lambda>d. length (paths_of d)) documents = [1]"
  by (simp add: documents_value all_items_value refs_ok_def refs_of_def items_value paths_value)

text \<open>
  C9: the script builds the table once and does not touch it again: what it does is
  one declaration, one assignment of the data literal, and then one call of
  \<open>initSearch\<close> on the table. The value the call returns is dropped, and an error
  it throws is not handled: it is the script's own outcome.
\<close>

theorem C9_built_once_then_handed_over:
  "fst (script initSearch p) =
     [Declare ''searchIndex'' (JObj []),
      SetProp ''searchIndex'' ''read_exact'' read_exact_entry,
      Invoke ''initSearch'' [table]] \<and>
   snd (script initSearch p) =
     (case initSearch [table] (p\<lparr>vars := (vars p)(''searchIndex'' \<mapsto> table)\<rparr>) of
        Inl e \<Rightarrow> Inl e
      | Inr (r, p') \<Rightarrow> Inr p')"
  by (simp add: script_def seq_def load_table_result stmt3_def table_value)

text \<open>
  C10: every entry of the paths list is a pair of a numeric kind code and a string
  name; the only item with a non-null parent reference is the method
  \<open>read_exact_or_eof\<close>, whose reference is 0; and the paths entry at that index has
  kind code 8 and name \<open>ReadExactExt\<close>, as the trait's item descriptor has.
\<close>

theorem C10_items_and_paths_agree:
  "list_all is_path (paths_of read_exact_entry) \<and>
   map (field_at 1) (filter has_parent (items_of read_exact_entry)) =
     [Some (JStr ''read_exact_or_eof'')] \<and>
   map (field_at 4) (filter has_parent (items_of read_exact_entry)) = [Some (JNum 0)] \<and>
   map (parent_path read_exact_entry) (filter has_parent (items_of read_exact_entry)) =
     [Some (JArr [JNum 8, JStr ''ReadExactExt''])] \<and>
   map kind_and_name (filter is_trait (items_of read_exact_entry)) =
     [[JNum 8, JStr ''ReadExactExt'']] \<and>
   kind_and_name (JArr [JNum 8, JStr ''ReadExactExt'']) = [JNum 8, JStr ''ReadExactExt'']"
  by (simp add: items_value paths_value has_parent_def field_at_def parent_path_def
      kind_and_name_def is_trait_def)

section \<open>Properties of the bounded read\<close>

declare fill_from.simps [simp del]

lemma length_write_at: "off \<le> length buf \<Longrightarrow> length (write_at off bs buf) = length buf"
  by (simp add: write_at_def)

lemma take_write_at:
  "off + length bs \<le> length buf \<Longrightarrow> take (off + length bs) (write_at off bs buf) = take off buf @ bs"
  by (simp add: write_at_def)

lemma fill_from_full: "length buf \<le> off \<Longrightarrow> fill_from off buf src = (Inr off, buf, src)"
  by (simp add: fill_from.simps)

lemma fill_from_data:
  assumes "off < length buf" and "bs \<noteq> []" and "length bs \<le> length buf - off"
  shows "fill_from off buf (Data bs # r) = fill_from (off + length bs) (write_at off bs buf) r"
  using assms by (subst fill_from.simps) simp

lemma fill_from_data_split:
  assumes "off < length buf" and "length buf - off < length bs"
  shows "fill_from off buf (Data bs # r) =
         fill_from (off + (length buf - off)) (write_at off (take (length buf - off) bs) buf)
           (Data (drop (length buf - off) bs) # r)"
proof -
  from assms have "bs \<noteq> []" and "take (length buf - off) bs \<noteq> []"
    by auto
  with assms show ?thesis
    by (subst fill_from.simps) (simp add: min_def)
qed

lemma fill_from_eof:
  assumes "off < length buf" and "at_eof src"
  shows "fill_from off buf src =
         (if off = 0 then Inr 0 else Inl UnexpectedEof, buf, tl src)"
proof (cases src)
  case Nil
  with assms show ?thesis by (subst fill_from.simps) simp
next
  case (Cons c r)
  with assms obtain "c = Data []" by (cases c) auto
  with assms Cons show ?thesis by (subst fill_from.simps) simp
qed

lemma fill_from_fail:
  "off < length buf \<Longrightarrow> fill_from off buf (Fail e # r) = (Inl (Io e), buf, r)"
  by (subst fill_from.simps) simp

text \<open>The outcome of the loop, read off from what the source holds.\<close>

lemma fill_from_result:
  "off \<le> length buf \<Longrightarrow>
   fst (fill_from off buf src) =
     (if length buf - off \<le> length (delivered src) then Inr (length buf)
      else case ending src of
             Some e \<Rightarrow> Inl (Io e)
           | None \<Rightarrow> if off = 0 \<and> delivered src = [] then Inr 0 else Inl UnexpectedEof)"
proof (induction src arbitrary: off buf)
  case Nil
  then show ?case
    by (cases "off < length buf") (simp_all add: fill_from_eof fill_from_full)
next
  case (Cons c r)
  show ?case
  proof (cases "off < length buf")
    case False
    with Cons.prems show ?thesis by (simp add: fill_from_full)
  next
    case lt: True
    show ?thesis
    proof (cases c)
      case (Fail e)
      with lt show ?thesis by (simp add: fill_from_fail)
    next
      case (Data bs)
      show ?thesis
      proof (cases "bs = []")
        case True
        with lt Data show ?thesis by (simp add: fill_from_eof)
      next
        case ne: False
        show ?thesis
        proof (cases "length bs \<le> length buf - off")
          case True
          have len: "length (write_at off bs buf) = length buf"
            using lt by (simp add: length_write_at)
          have "off + length bs \<le> length (write_at off bs buf)"
            using True lt len by simp
          from Cons.IH [OF this] True lt ne Data len show ?thesis
            by (simp add: fill_from_data) (auto split: option.splits)
        next
          case False
          then have big: "length buf - off < length bs" by simp
          have "fill_from (off + (length buf - off))
                  (write_at off (take (length buf - off) bs) buf)
                  (Data (drop (length buf - off) bs) # r) =
                (Inr (length buf), write_at off (take (length buf - off) bs) buf,
                 Data (drop (length buf - off) bs) # r)"
            using lt by (simp add: fill_from_full length_write_at)
          with big lt ne Data show ?thesis
            by (simp add: fill_from_data_split)
        qed
      qed
    qed
  qed
qed

text \<open>A source that is a run of non-empty chunks followed by anything.\<close>

lemma fill_from_chunks_full:
  "[] \<notin> set cs \<Longrightarrow> off + length (concat cs) = length buf \<Longrightarrow>
   fill_from off buf (map Data cs @ r) = (Inr (length buf), take off buf @ concat cs, r)"
proof (induction cs arbitrary: off buf)
  case Nil
  then show ?case by (simp add: fill_from_full)
next
  case (Cons c cs)
  from Cons.prems have ne: "c \<noteq> []" and rest: "[] \<notin> set cs" by auto
  from Cons.prems ne have lt: "off < length buf" by (cases c) auto
  from Cons.prems have fits: "length c \<le> length buf - off" by simp
  have len: "length (write_at off c buf) = length buf"
    using lt by (simp add: length_write_at)
  have "off + length c + length (concat cs) = length (write_at off c buf)"
    using Cons.prems len by simp
  from Cons.IH [OF rest this]
  have "fill_from (off + length c) (write_at off c buf) (map Data cs @ r) =
        (Inr (length buf), take (off + length c) (write_at off c buf) @ concat cs, r)"
    by (simp add: len)
  moreover have "take (off + length c) (write_at off c buf) = take off buf @ c"
    using fits lt by (simp add: take_write_at)
  ultimately show ?case
    using lt ne fits by (simp add: fill_from_data)
qed

lemma fill_from_chunks_fail:
  "[] \<notin> set cs \<Longrightarrow> off + length (concat cs) < length buf \<Longrightarrow>
   fst (fill_from off buf (map Data cs @ Fail e # r)) = Inl (Io e) \<and>
   snd (snd (fill_from off buf (map Data cs @ Fail e # r))) = r"
proof (induction cs arbitrary: off buf)
  case Nil
  then show ?case by (simp add: fill_from_fail)
next
  case (Cons c cs)
  from Cons.prems have ne: "c \<noteq> []" and rest: "[] \<notin> set cs" by auto
  from Cons.prems have lt: "off < length buf" by simp
  from Cons.prems have fits: "length c \<le> length buf - off" by simp
  have len: "length (write_at off c buf) = length buf"
    using lt by (simp add: length_write_at)
  have "off + length c + length (concat cs) < length (write_at off c buf)"
    using Cons.prems len by simp
  from Cons.IH [OF rest this] show ?case
    using lt ne fits by (simp add: fill_from_data)
qed

lemma delivered_chunks:
  "[] \<notin> set cs \<Longrightarrow> at_eof r \<Longrightarrow> delivered (map Data cs @ r) = concat cs"
proof (induction cs)
  case Nil
  then show ?case by (cases r rule: at_eof.cases) auto
next
  case (Cons c cs)
  then show ?case by auto
qed

lemma ending_chunks:
  "[] \<notin> set cs \<Longrightarrow> at_eof r \<Longrightarrow> ending (map Data cs @ r) = None"
proof (induction cs)
  case Nil
  then show ?case by (cases r rule: at_eof.cases) auto
next
  case (Cons c cs)
  then show ?case by auto
qed

text \<open>
  C1: a source that provides exactly \<open>k\<close> bytes and then reaches end of stream
  (\<open>ending src = None\<close>, \<open>length (delivered src) = k\<close>) makes the call fail with
  the "unexpected end of input" error whenever \<open>0 < k < N\<close>, and the call fails with
  that error in no other case.
\<close>

theorem C1_unexpected_eof_iff_partial_read:
  "fst (read_exact_or_eof buf src) = Inl UnexpectedEof \<longleftrightarrow>
   (ending src = None \<and> 0 < length (delivered src) \<and> length (delivered src) < length buf)"
proof -
  have "fst (fill_from 0 buf src) =
          (if length buf \<le> length (delivered src) then Inr (length buf)
           else case ending src of
                  Some e \<Rightarrow> Inl (Io e)
                | None \<Rightarrow> if delivered src = [] then Inr 0 else Inl UnexpectedEof)"
    using fill_from_result [of 0 buf src] by simp
  then show ?thesis
    by (auto simp: read_exact_or_eof_def split: option.splits if_splits)
qed

theorem C1_unexpected_eof_witness:
  "ending ([Data [1], Data [2]] :: nat source) = None \<and>
   0 < length (delivered ([Data [1], Data [2]] :: nat source)) \<and>
   length (delivered ([Data [1], Data [2]] :: nat source)) < length [0, 0, 0 :: byte] \<and>
   fst (read_exact_or_eof [0, 0, 0] ([Data [1], Data [2]] :: nat source)) = Inl UnexpectedEof"
  using C1_unexpected_eof_iff_partial_read [of "[0, 0, 0]" "[Data [1], Data [2]] :: nat source"]
  by simp

text \<open>
  C2: with a buffer of length \<open>N > 0\<close> and a source that is at end of stream before
  any byte has been read, the call succeeds with zero bytes filled, and the buffer is
  as it was.
\<close>

theorem C2_immediate_eof_is_success:
  "0 < length buf \<Longrightarrow> at_eof src \<Longrightarrow>
   fst (read_exact_or_eof buf src) = Inr 0 \<and> fst (snd (read_exact_or_eof buf src)) = buf"
  by (simp add: read_exact_or_eof_def fill_from_eof)

theorem C2_immediate_eof_witness:
  "0 < length [7, 7 :: byte] \<and> at_eof ([] :: nat source) \<and>
   fst (read_exact_or_eof [7, 7] ([] :: nat source)) = Inr 0 \<and>
   fst (snd (read_exact_or_eof [7, 7] ([] :: nat source))) = [7, 7]"
  using C2_immediate_eof_is_success [of "[7, 7]" "[] :: nat source"]
  by simp

text \<open>
  C3: when the underlying read raises the error \<open>e\<close> after the source has provided
  fewer than \<open>N\<close> bytes (at any offset below \<open>N\<close>, also at offset 0), the call fails
  with that same error as a lower-level I/O error, and nothing after the failing read
  is consumed.
\<close>

theorem C3_io_error_propagates:
  "[] \<notin> set cs \<Longrightarrow> length (concat cs) < length buf \<Longrightarrow>
   fst (read_exact_or_eof buf (map Data cs @ Fail e # r)) = Inl (Io e) \<and>
   snd (snd (read_exact_or_eof buf (map Data cs @ Fail e # r))) = r"
  using fill_from_chunks_fail [of cs 0 buf e r]
  by (simp add: read_exact_or_eof_def)

theorem C3_io_error_witness:
  "[] \<notin> set [[1], [2 :: byte]] \<and> length (concat [[1], [2 :: byte]]) < length [0, 0, 0 :: byte] \<and>
   fst (read_exact_or_eof [0, 0, 0] (map Data [[1], [2]] @ Fail (5 :: nat) # [Data [9]])) = Inl (Io 5) \<and>
   snd (snd (read_exact_or_eof [0, 0, 0] (map Data [[1], [2]] @ Fail (5 :: nat) # [Data [9]]))) = [Data [9]]"
  using C3_io_error_propagates [of "[[1], [2]]" "[0, 0, 0]" "5 :: nat" "[Data [9]]"]
  by simp

text \<open>
  C4: with a buffer of length \<open>N > 0\<close> and a source that provides exactly \<open>N\<close> bytes
  (in any number of reads), the call succeeds with \<open>N\<close> bytes filled, the buffer
  holds those bytes, and the source is left right after them.
\<close>

theorem C4_full_read_fills_buffer:
  "0 < length buf \<Longrightarrow> [] \<notin> set cs \<Longrightarrow> length (concat cs) = length buf \<Longrightarrow>
   read_exact_or_eof buf (map Data cs @ r) = (Inr (length buf), concat cs, r)"
  using fill_from_chunks_full [of cs 0 buf r]
  by (simp add: read_exact_or_eof_def)

theorem C4_full_read_witness:
  "0 < length [0, 0, 0 :: byte] \<and> [] \<notin> set [[1, 2], [3 :: byte]] \<and>
   length (concat [[1, 2], [3 :: byte]]) = length [0, 0, 0 :: byte] \<and>
   read_exact_or_eof [0, 0, 0] (map Data [[1, 2], [3]] @ [Data [4], Fail (6 :: nat)]) =
     (Inr 3, [1, 2, 3], [Data [4], Fail 6])"
  using C4_full_read_fills_buffer [of "[0, 0, 0]" "[[1, 2], [3]]" "[Data [4], Fail (6 :: nat)]"]
  by simp

end
